theory Spec2Isabelle
  imports Complex_Main
begin

section \<open>Agent commission analysis: the data model\<close>

text \<open>
  The program is one Python script, \<^verbatim>\<open>streamlit_app.py\<close>. It loads one row per policy from the
  warehouse, parses the first statement date, drops the rows whose date did not parse, derives
  three columns (\<^verbatim>\<open>CB_FRACTION\<close>, \<^verbatim>\<open>MONTHS_PAID\<close>, \<^verbatim>\<open>STATUS\<close>), filters by a date range, cuts
  two segments and renders three tabs.

  Modelling decisions:
  \<^item> a data frame is the list of its rows, a row is a record with the column names as fields;
  \<^item> amounts are exact rationals (the warehouse returns fixed-point numbers);
  \<^item> a parsed date is the number of days since 1970-01-01, \<open>NaT\<close> is \<open>None\<close>;
  \<^item> a Python exception is the left summand of a result;
  \<^item> \<^verbatim>\<open>pd.to_datetime\<close>, the date picker and the radio buttons are parameters: the parser maps
    a raw cell to a date or to nothing, the widgets return what the user picked.
\<close>

datatype py_error = ZeroDivisionError | TypeError

type_synonym date = int

record 'd row =
  POLICY_ID :: int
  POLICY_NUMBER :: string
  FIRST_STATEMENT_DATE :: 'd
  ADVANCE_AMOUNT :: rat
  CHARGEBACK_AMOUNT :: rat

record 'd classified = "'d row" +
  CB_FRACTION :: rat
  MONTHS_PAID :: int
  STATUS :: string

section \<open>The derived columns (lines 332 to 340)\<close>

text \<open>Python's \<^verbatim>\<open>/\<close> raises \<^verbatim>\<open>ZeroDivisionError\<close> on a zero divisor.\<close>

definition py_truediv :: "rat \<Rightarrow> rat \<Rightarrow> py_error + rat" where
  "py_truediv a b = (if b = 0 then Inl ZeroDivisionError else Inr (a / b))"

text \<open>
  Python's built-in \<^verbatim>\<open>round(x)\<close> with one argument returns the nearest integer and, at a tie,
  the even one of the two neighbours.
\<close>

definition py_round :: "rat \<Rightarrow> int" where
  "py_round x =
     (let f = \<lfloor>x\<rfloor>; d = x - of_int f
      in if d < 1 / 2 then f
         else if 1 / 2 < d then f + 1
         else if even f then f else f + 1)"

text \<open>
  \<^verbatim>\<open>lambda r: min(abs(r["CHARGEBACK_AMOUNT"]) / r["ADVANCE_AMOUNT"], 1.0)
            if r["ADVANCE_AMOUNT"] > 0 else 0\<close>
\<close>

definition cb_fraction :: "('d, 'z) row_scheme \<Rightarrow> py_error + rat" where
  "cb_fraction r =
     (if ADVANCE_AMOUNT r > 0
      then (case py_truediv \<bar>CHARGEBACK_AMOUNT r\<bar> (ADVANCE_AMOUNT r) of
              Inl e \<Rightarrow> Inl e
            | Inr q \<Rightarrow> Inr (min q 1))
      else Inr 0)"

text \<open>\<^verbatim>\<open>lambda x: round(12 * (1 - x))\<close>\<close>

definition months_paid :: "rat \<Rightarrow> int" where
  "months_paid x = py_round (12 * (1 - x))"

text \<open>\<^verbatim>\<open>lambda x: "Active" if x == 0 else "Charged Back"\<close>\<close>

definition status :: "rat \<Rightarrow> string" where
  "status x = (if x = 0 then ''Active'' else ''Charged Back'')"

text \<open>The three column assignments on one row; an exception in a lambda ends the script.\<close>

definition classify :: "'d row \<Rightarrow> py_error + 'd classified" where
  "classify r =
     (case cb_fraction r of
        Inl e \<Rightarrow> Inl e
      | Inr f \<Rightarrow> Inr
          \<lparr>POLICY_ID = POLICY_ID r, POLICY_NUMBER = POLICY_NUMBER r,
           FIRST_STATEMENT_DATE = FIRST_STATEMENT_DATE r,
           ADVANCE_AMOUNT = ADVANCE_AMOUNT r, CHARGEBACK_AMOUNT = CHARGEBACK_AMOUNT r,
           CB_FRACTION = f, MONTHS_PAID = months_paid f,
           STATUS = status (CHARGEBACK_AMOUNT r)\<rparr>)"


section \<open>Segments (lines 359 and 360)\<close>

definition df_ip :: "'d classified list \<Rightarrow> 'd classified list" where
  "df_ip df = filter (\<lambda>r. STATUS r = ''Charged Back'' \<and> MONTHS_PAID r = 0) df"

definition df_nip :: "'d classified list \<Rightarrow> 'd classified list" where
  "df_nip df = filter (\<lambda>r. STATUS r = ''Charged Back'' \<and> MONTHS_PAID r > 0) df"

section \<open>Load and clean (lines 326 to 330)\<close>

text \<open>
  \<^verbatim>\<open>pd.to_datetime(df["FIRST_STATEMENT_DATE"], errors="coerce")\<close> replaces every cell of the
  column by its parsed date, or by \<open>NaT\<close> where the cell does not parse. The parser is a
  parameter.
\<close>

definition to_datetime :: "('raw \<Rightarrow> date option) \<Rightarrow> 'raw row list \<Rightarrow> date option row list" where
  "to_datetime parse df =
     map (\<lambda>r. \<lparr>POLICY_ID = POLICY_ID r, POLICY_NUMBER = POLICY_NUMBER r,
               FIRST_STATEMENT_DATE = parse (FIRST_STATEMENT_DATE r),
               ADVANCE_AMOUNT = ADVANCE_AMOUNT r, CHARGEBACK_AMOUNT = CHARGEBACK_AMOUNT r\<rparr>) df"

text \<open>\<^verbatim>\<open>bad = df["FIRST_STATEMENT_DATE"].isna().sum()\<close>\<close>

definition isna_sum :: "date option row list \<Rightarrow> nat" where
  "isna_sum df = length (filter (\<lambda>r. FIRST_STATEMENT_DATE r = None) df)"

text \<open>
  \<^verbatim>\<open>if bad: st.warning(f"Dropped {bad} row(s) with invalid/out-of-bounds dates.")\<close>:
  the warning, when shown, carries the count.
\<close>

definition warning :: "nat \<Rightarrow> nat option" where
  "warning bad = (if bad \<noteq> 0 then Some bad else None)"

text \<open>\<^verbatim>\<open>df.dropna(subset=["FIRST_STATEMENT_DATE"])\<close>: the rows that have a date, in their order.\<close>

fun dropna :: "date option row list \<Rightarrow> date row list" where
  "dropna [] = []"
| "dropna (r # df) =
     (case FIRST_STATEMENT_DATE r of
        None \<Rightarrow> dropna df
      | Some d \<Rightarrow>
          \<lparr>POLICY_ID = POLICY_ID r, POLICY_NUMBER = POLICY_NUMBER r, FIRST_STATEMENT_DATE = d,
           ADVANCE_AMOUNT = ADVANCE_AMOUNT r, CHARGEBACK_AMOUNT = CHARGEBACK_AMOUNT r\<rparr> # dropna df)"

definition load_and_clean :: "('raw \<Rightarrow> date option) \<Rightarrow> 'raw row list \<Rightarrow> nat option \<times> date row list" where
  "load_and_clean parse rows =
     (let df = to_datetime parse rows;
          bad = isna_sum df
      in (warning bad, dropna df))"

text \<open>The row-wise \<^verbatim>\<open>apply\<close>: the lambda runs on every row, the first exception ends it.\<close>

fun apply_rows :: "('a \<Rightarrow> py_error + 'b) \<Rightarrow> 'a list \<Rightarrow> py_error + 'b list" where
  "apply_rows f [] = Inr []"
| "apply_rows f (r # rs) =
     (case f r of
        Inl e \<Rightarrow> Inl e
      | Inr c \<Rightarrow> (case apply_rows f rs of Inl e \<Rightarrow> Inl e | Inr cs \<Rightarrow> Inr (c # cs)))"

section \<open>Sidebar date filter (lines 343 to 356)\<close>

text \<open>
  \<^verbatim>\<open>Series.min()\<close> and \<^verbatim>\<open>Series.max()\<close> of a date column; on an empty column both are
  \<open>NaT\<close>.
\<close>

fun series_min :: "date list \<Rightarrow> date option" where
  "series_min [] = None"
| "series_min (d # ds) = Some (fold min ds d)"

fun series_max :: "date list \<Rightarrow> date option" where
  "series_max [] = None"
| "series_max (d # ds) = Some (fold max ds d)"

text \<open>\<^verbatim>\<open>pd.Timestamp("2024-01-01").date()\<close>, as days since 1970-01-01.\<close>

definition timestamp_2024_01_01 :: date where
  "timestamp_2024_01_01 = 19723"

text \<open>
  \<^verbatim>\<open>min_date\<close>, \<^verbatim>\<open>max_date\<close> and \<^verbatim>\<open>default_start = max(min_date, ...)\<close>. On an empty frame
  \<^verbatim>\<open>min_date\<close> is \<open>NaT\<close> (\<^verbatim>\<open>NaT.date()\<close> is \<open>NaT\<close> again), and ordering \<open>NaT\<close> against a
  \<^verbatim>\<open>datetime.date\<close> raises \<^verbatim>\<open>TypeError\<close>. Nothing in the script guards this case.
\<close>

definition default_range :: "date list \<Rightarrow> py_error + (date \<times> date \<times> date)" where
  "default_range ds =
     (case (series_min ds, series_max ds) of
        (Some min_date, Some max_date) \<Rightarrow>
          Inr (min_date, max_date, max min_date timestamp_2024_01_01)
      | _ \<Rightarrow> Inl TypeError)"

definition date_filter :: "date \<Rightarrow> date \<Rightarrow> date classified list \<Rightarrow> date classified list" where
  "date_filter date_start date_end df =
     filter (\<lambda>r. date_start \<le> FIRST_STATEMENT_DATE r \<and> FIRST_STATEMENT_DATE r \<le> date_end) df"

section \<open>Resampling (lines 146 to 161 and 234 to 252)\<close>

datatype agg_opt = Day | Week | Month

datatype freq = Freq_D | Freq_W | Freq_MS

fun freq_map :: "agg_opt \<Rightarrow> freq" where
  "freq_map Day = Freq_D"
| "freq_map Week = Freq_W"
| "freq_map Month = Freq_MS"

text \<open>
  The calendar month of a day number, counted in months since year 0 (the usual
  days-to-civil-date computation of the proleptic Gregorian calendar).
\<close>

definition month_index :: "date \<Rightarrow> int" where
  "month_index d =
     (let z = d + 719468;
          era = z div 146097;
          doe = z - era * 146097;
          yoe = (doe - doe div 1460 + doe div 36524 - doe div 146096) div 365;
          doy = doe - (365 * yoe + yoe div 4 - yoe div 100);
          mp = (5 * doy + 2) div 153;
          m = (if mp < 10 then mp + 3 else mp - 9);
          y = yoe + era * 400 + (if m \<le> 2 then 1 else 0)
      in 12 * y + (m - 1))"

text \<open>
  The period a date falls in, as an integer that grows by one from each period to the next:
  \<^item> \<^verbatim>\<open>"D"\<close>: the day itself;
  \<^item> \<^verbatim>\<open>"W"\<close>: the week from Monday to Sunday (pandas' \<^verbatim>\<open>W-SUN\<close>); day 0 is a Thursday;
  \<^item> \<^verbatim>\<open>"MS"\<close>: the calendar month.
\<close>

fun period :: "freq \<Rightarrow> date \<Rightarrow> int" where
  "period Freq_D d = d"
| "period Freq_W d = (d + 3) div 7"
| "period Freq_MS d = month_index d"

text \<open>
  \<^verbatim>\<open>data.set_index("FIRST_STATEMENT_DATE").resample(freq)\<close>: pandas lays out one bin for
  every period from the one of the earliest row to the one of the latest row, whether or not a
  row falls in it, and hands every bin the rows of its period.
\<close>

definition resample :: "freq \<Rightarrow> (date, 'z) row_scheme list \<Rightarrow> (int \<times> (date, 'z) row_scheme list) list" where
  "resample f data =
     (let ps = map (\<lambda>r. period f (FIRST_STATEMENT_DATE r)) data
      in case (series_min ps, series_max ps) of
           (Some lo, Some hi) \<Rightarrow>
             map (\<lambda>i. (i, filter (\<lambda>r. period f (FIRST_STATEMENT_DATE r) = i) data)) [lo..hi]
         | _ \<Rightarrow> [])"

text \<open>\<^verbatim>\<open>Series.mean()\<close>: \<open>NaN\<close> (here \<open>None\<close>) on an empty series.\<close>

definition series_mean :: "int list \<Rightarrow> rat option" where
  "series_mean xs = (if xs = [] then None else Some (of_int (sum_list xs) / of_nat (length xs)))"

text \<open>
  The time series of \<^verbatim>\<open>render_all\<close> (lines 154 to 161): per bin the sum of the advances and
  the absolute value of the sum of the chargebacks.
\<close>

record ts_all_row =
  Date :: int
  Advanced :: rat
  Chargeback :: rat

definition ts_all :: "freq \<Rightarrow> date classified list \<Rightarrow> ts_all_row list" where
  "ts_all f data =
     map (\<lambda>(i, g). \<lparr>Date = i,
                    Advanced = sum_list (map ADVANCE_AMOUNT g),
                    Chargeback = \<bar>sum_list (map CHARGEBACK_AMOUNT g)\<bar>\<rparr>)
       (resample f data)"

text \<open>
  The time series of \<^verbatim>\<open>render_segment\<close> (lines 242 to 252): per bin the number of rows, the
  absolute value of the sum of the chargebacks and the mean of the months paid.
\<close>

record ts_segment_row =
  Bin :: int
  Count :: nat
  Chargeback_abs :: rat
  Avg_Months :: "rat option"

definition ts_segment :: "freq \<Rightarrow> date classified list \<Rightarrow> ts_segment_row list" where
  "ts_segment f data =
     map (\<lambda>(i, g). \<lparr>Bin = i,
                    Count = length g,
                    Chargeback_abs = \<bar>sum_list (map CHARGEBACK_AMOUNT g)\<bar>,
                    Avg_Months = series_mean (map MONTHS_PAID g)\<rparr>)
       (resample f data)"

section \<open>The tabs (lines 79 to 320)\<close>

text \<open>
  A panel shows either a notice (\<^verbatim>\<open>st.info\<close>) or a chart of the data computed for it. Of a
  tab the model keeps the header figures, the time series and the distribution of months
  paid; the donut, the heat map and the raw table read the same frame and are left out.
\<close>

datatype 'a panel = Info string | Chart 'a

text \<open>\<^verbatim>\<open>value_counts()\<close> of the months paid, sorted by months paid.\<close>

definition month_dist :: "date classified list \<Rightarrow> (int \<times> nat) list" where
  "month_dist data =
     (let ms = map MONTHS_PAID data
      in map (\<lambda>m. (m, count_list ms m)) (sort (remdups ms)))"

record all_view =
  total_n :: nat
  active_n :: nat
  cb_n :: nat
  total_advanced :: rat
  total_cb :: rat
  months_panel :: "(int \<times> nat) list panel"
  ts_panel :: "ts_all_row list panel"

definition render_all :: "agg_opt \<Rightarrow> date classified list \<Rightarrow> all_view" where
  "render_all agg data =
     (let cb_data = filter (\<lambda>r. STATUS r = ''Charged Back'') data
      in \<lparr>total_n = length data,
          active_n = length (filter (\<lambda>r. STATUS r = ''Active'') data),
          cb_n = length (filter (\<lambda>r. STATUS r = ''Charged Back'') data),
          total_advanced = sum_list (map ADVANCE_AMOUNT data),
          total_cb = sum_list (map CHARGEBACK_AMOUNT data),
          months_panel =
            (if cb_data = [] then Info ''No charged-back policies in this segment.''
             else Chart (month_dist cb_data)),
          ts_panel =
            (if data = [] then Info ''No data to display.''
             else Chart (ts_all (freq_map agg) data))\<rparr>)"

text \<open>
  \<^verbatim>\<open>render_segment\<close>: the four figures of the header (the fourth shows the mean only when
  \<^verbatim>\<open>show_avg_months\<close> is set, else 0), the time series with its third chart drawn only when
  \<^verbatim>\<open>show_avg_months\<close> is set, and the distribution of months paid. The division and the
  mean are guarded by \<^verbatim>\<open>total > 0\<close>.
\<close>

record segment_view =
  seg_total :: nat
  seg_total_cb :: rat
  avg_cb :: rat
  avg_months :: "rat option"
  k4_avg_months_paid :: "rat option"
  seg_ts_panel :: "ts_segment_row list panel"
  avg_months_chart :: bool
  seg_months_panel :: "(int \<times> nat) list panel"

definition render_segment :: "date classified list \<Rightarrow> agg_opt \<Rightarrow> bool \<Rightarrow> py_error + segment_view" where
  "render_segment data agg show_avg_months =
     (let total = length data;
          total_cb = sum_list (map CHARGEBACK_AMOUNT data)
      in case (if total > 0 then py_truediv total_cb (of_nat total) else Inr 0) of
           Inl e \<Rightarrow> Inl e
         | Inr avg \<Rightarrow>
             (let avg_m = (if total > 0 then series_mean (map MONTHS_PAID data) else Some 0)
              in Inr
                \<lparr>seg_total = total,
                 seg_total_cb = total_cb,
                 avg_cb = avg,
                 avg_months = avg_m,
                 k4_avg_months_paid = (if show_avg_months then avg_m else Some 0),
                 seg_ts_panel =
                   (if data = [] then Info ''No data to display.''
                    else Chart (ts_segment (freq_map agg) data)),
                 avg_months_chart = (data \<noteq> [] \<and> show_avg_months),
                 seg_months_panel =
                   (if data = [] then Info ''No data to display.''
                    else Chart (month_dist data))\<rparr>))"

section \<open>The script (lines 324 to 374)\<close>

text \<open>
  The widgets are parameters: \<open>date_input\<close> maps the default range and the two bounds to the
  range the user picked, and each tab has its own aggregation choice.
\<close>

record view =
  warning_shown :: "nat option"
  tab_all :: all_view
  tab_ip :: segment_view
  tab_nip :: segment_view

definition streamlit_app ::
  "('raw \<Rightarrow> date option) \<Rightarrow> (date \<times> date \<Rightarrow> date \<Rightarrow> date \<Rightarrow> date \<times> date) \<Rightarrow>
   agg_opt \<Rightarrow> agg_opt \<Rightarrow> agg_opt \<Rightarrow> 'raw row list \<Rightarrow> py_error + view" where
  "streamlit_app parse date_input agg_all agg_ip agg_nip rows =
     (case load_and_clean parse rows of (w, df0) \<Rightarrow>
      case apply_rows classify df0 of
        Inl e \<Rightarrow> Inl e
      | Inr df1 \<Rightarrow>
     (case default_range (map FIRST_STATEMENT_DATE df1) of
        Inl e \<Rightarrow> Inl e
      | Inr (min_date, max_date, default_start) \<Rightarrow>
     (case date_input (default_start, max_date) min_date max_date of (date_start, date_end) \<Rightarrow>
      let df = date_filter date_start date_end df1 in
      case render_segment (df_ip df) agg_ip False of
        Inl e \<Rightarrow> Inl e
      | Inr ip \<Rightarrow>
     (case render_segment (df_nip df) agg_nip True of
        Inl e \<Rightarrow> Inl e
      | Inr nip \<Rightarrow>
          Inr \<lparr>warning_shown = w, tab_all = render_all agg_all df,
               tab_ip = ip, tab_nip = nip\<rparr>))))"

section \<open>Example data\<close>

text \<open>
  Three classified rows (first statements on 2024-01-01, 2024-01-03 and 2024-03-18), a parser
  that knows one date, two raw rows of which the second carries a date out of bounds, and
  that second row alone.
\<close>

definition row_jan01 :: "date classified" where
  "row_jan01 = \<lparr>POLICY_ID = 1, POLICY_NUMBER = ''A'', FIRST_STATEMENT_DATE = 19723,
      ADVANCE_AMOUNT = 100, CHARGEBACK_AMOUNT = - 50,
      CB_FRACTION = 1 / 2, MONTHS_PAID = 6, STATUS = ''Charged Back''\<rparr>"

definition row_jan03 :: "date classified" where
  "row_jan03 = \<lparr>POLICY_ID = 2, POLICY_NUMBER = ''B'', FIRST_STATEMENT_DATE = 19725,
      ADVANCE_AMOUNT = 200, CHARGEBACK_AMOUNT = - 200,
      CB_FRACTION = 1, MONTHS_PAID = 0, STATUS = ''Charged Back''\<rparr>"

definition row_mar18 :: "date classified" where
  "row_mar18 = \<lparr>POLICY_ID = 3, POLICY_NUMBER = ''C'', FIRST_STATEMENT_DATE = 19800,
      ADVANCE_AMOUNT = 300, CHARGEBACK_AMOUNT = 0,
      CB_FRACTION = 0, MONTHS_PAID = 12, STATUS = ''Active''\<rparr>"

definition parse_iso_2024_01_01 :: "string \<Rightarrow> date option" where
  "parse_iso_2024_01_01 s = (if s = ''2024-01-01'' then Some 19723 else None)"

definition raw_rows :: "string row list" where
  "raw_rows =
     [\<lparr>POLICY_ID = 1, POLICY_NUMBER = ''A'', FIRST_STATEMENT_DATE = ''2024-01-01'',
       ADVANCE_AMOUNT = 100, CHARGEBACK_AMOUNT = - 50\<rparr>,
      \<lparr>POLICY_ID = 2, POLICY_NUMBER = ''B'', FIRST_STATEMENT_DATE = ''9999-12-31'',
       ADVANCE_AMOUNT = 200, CHARGEBACK_AMOUNT = 0\<rparr>]"

definition raw_rows_out_of_bounds :: "string row list" where
  "raw_rows_out_of_bounds =
     [\<lparr>POLICY_ID = 2, POLICY_NUMBER = ''B'', FIRST_STATEMENT_DATE = ''9999-12-31'',
       ADVANCE_AMOUNT = 200, CHARGEBACK_AMOUNT = 0\<rparr>]"

section \<open>Facts about rounding\<close>

lemma py_round_lower: "of_int (py_round x) - 1 / 2 \<le> x"
  unfolding py_round_def Let_def by (auto; linarith)

lemma py_round_upper: "x \<le> of_int (py_round x) + 1 / 2"
  unfolding py_round_def Let_def by (auto; linarith)

lemma py_round_tie_even:
  assumes "\<bar>of_int (py_round x) - x\<bar> = 1 / 2"
  shows "even (py_round x)"
proof -
  have fl: "of_int \<lfloor>x\<rfloor> \<le> x" "x < of_int \<lfloor>x\<rfloor> + 1" by linarith+
  show ?thesis
    using assms fl unfolding py_round_def Let_def
    by (auto split: if_splits)
qed

lemma py_round_range:
  "0 \<le> x \<Longrightarrow> x \<le> 12 \<Longrightarrow> 0 \<le> py_round x \<and> py_round x \<le> 12"
  using py_round_lower[of x] py_round_upper[of x] by linarith

lemma py_round_of_int: "py_round (of_int n) = n"
  unfolding py_round_def Let_def by simp

lemma py_round_lt_12: "py_round x < 12 \<longleftrightarrow> x < 23 / 2"
proof
  assume a: "py_round x < 12"
  show "x < 23 / 2"
  proof (rule ccontr)
    assume "\<not> x < 23 / 2"
    then have x: "23 / 2 \<le> x" by simp
    with py_round_upper[of x] have "11 \<le> py_round x" by linarith
    with a have e: "py_round x = 11" by simp
    then have e': "rat_of_int (py_round x) = 11" by simp
    with py_round_upper[of x] x have xeq: "x = 23 / 2" by simp
    have "\<bar>of_int (py_round x) - x\<bar> = \<bar>11 - x\<bar>" by (simp only: e')
    also have "\<dots> = 1 / 2" unfolding xeq by simp
    finally have "\<bar>of_int (py_round x) - x\<bar> = 1 / 2" .
    from py_round_tie_even[OF this] e show False by simp
  qed
next
  assume "x < 23 / 2"
  with py_round_lower[of x] show "py_round x < 12" by linarith
qed

section \<open>Facts about the classifier\<close>

lemma cb_fraction_value:
  "cb_fraction r =
     Inr (if ADVANCE_AMOUNT r \<le> 0 then 0
          else min (\<bar>CHARGEBACK_AMOUNT r\<bar> / ADVANCE_AMOUNT r) 1)"
  by (simp add: cb_fraction_def py_truediv_def)

lemma cb_fraction_range:
  assumes "cb_fraction r = Inr f"
  shows "0 \<le> f \<and> f \<le> 1"
proof -
  have "0 \<le> \<bar>CHARGEBACK_AMOUNT r\<bar> / ADVANCE_AMOUNT r" if "0 < ADVANCE_AMOUNT r"
    using that by simp
  with assms show ?thesis
    unfolding cb_fraction_value by (auto split: if_splits)
qed

lemma classify_value:
  "classify r =
     Inr \<lparr>POLICY_ID = POLICY_ID r, POLICY_NUMBER = POLICY_NUMBER r,
          FIRST_STATEMENT_DATE = FIRST_STATEMENT_DATE r,
          ADVANCE_AMOUNT = ADVANCE_AMOUNT r, CHARGEBACK_AMOUNT = CHARGEBACK_AMOUNT r,
          CB_FRACTION = (if ADVANCE_AMOUNT r \<le> 0 then 0
                         else min (\<bar>CHARGEBACK_AMOUNT r\<bar> / ADVANCE_AMOUNT r) 1),
          MONTHS_PAID = months_paid (if ADVANCE_AMOUNT r \<le> 0 then 0
                         else min (\<bar>CHARGEBACK_AMOUNT r\<bar> / ADVANCE_AMOUNT r) 1),
          STATUS = status (CHARGEBACK_AMOUNT r)\<rparr>"
  unfolding classify_def cb_fraction_value by simp

lemma classify_fields:
  assumes "classify r = Inr c"
  shows "cb_fraction r = Inr (CB_FRACTION c)"
    and "MONTHS_PAID c = months_paid (CB_FRACTION c)"
    and "STATUS c = status (CHARGEBACK_AMOUNT r)"
    and "ADVANCE_AMOUNT c = ADVANCE_AMOUNT r"
    and "CHARGEBACK_AMOUNT c = CHARGEBACK_AMOUNT r"
    and "FIRST_STATEMENT_DATE c = FIRST_STATEMENT_DATE r"
  using assms unfolding classify_value cb_fraction_value by auto

section \<open>Claims about the classifier\<close>

text \<open>
  C3. Classifying a row never raises: the division only runs under the guard
  \<open>ADVANCE_AMOUNT > 0\<close>. The fraction is 0 when the advance is not positive (whatever the
  chargeback), otherwise the absolute chargeback over the advance capped at 1; in both cases
  it lies between 0 and 1.
\<close>
theorem cb_fraction_guarded_and_capped:
  "\<exists>c. classify r = Inr c \<and>
       CB_FRACTION c = (if ADVANCE_AMOUNT r \<le> 0 then 0
                        else min (\<bar>CHARGEBACK_AMOUNT r\<bar> / ADVANCE_AMOUNT r) 1) \<and>
       0 \<le> CB_FRACTION c \<and> CB_FRACTION c \<le> 1"
proof -
  obtain c where c: "classify r = Inr c"
    using classify_value[of r] by blast
  from classify_fields(1)[OF c] have f: "cb_fraction r = Inr (CB_FRACTION c)" .
  from f have "CB_FRACTION c = (if ADVANCE_AMOUNT r \<le> 0 then 0
                        else min (\<bar>CHARGEBACK_AMOUNT r\<bar> / ADVANCE_AMOUNT r) 1)"
    unfolding cb_fraction_value by simp
  with c cb_fraction_range[OF f] show ?thesis by blast
qed






text \<open>
  C5, as the code has it. A charged-back row has at most 12 months paid, and fewer than 12
  exactly when the advance is positive and the absolute chargeback exceeds one
  twenty-fourth of it.
\<close>
theorem charged_back_months_paid:
  assumes "classify r = Inr c" and "STATUS c = ''Charged Back''"
  shows "MONTHS_PAID c \<le> 12 \<and>
         (MONTHS_PAID c < 12) =
           (0 < ADVANCE_AMOUNT r \<and> ADVANCE_AMOUNT r < 24 * \<bar>CHARGEBACK_AMOUNT r\<bar>)"
proof -
  let ?f = "CB_FRACTION c"
  have m: "MONTHS_PAID c = py_round (12 * (1 - ?f))"
    using classify_fields(2)[OF assms(1)] by (simp add: months_paid_def)
  have rng: "0 \<le> ?f \<and> ?f \<le> 1"
    using cb_fraction_range[OF classify_fields(1)[OF assms(1)]] .
  then have "0 \<le> 12 * (1 - ?f)" "12 * (1 - ?f) \<le> 12" by simp_all
  from py_round_range[OF this] m have le: "MONTHS_PAID c \<le> 12" by simp
  have "(MONTHS_PAID c < 12) = (1 / 24 < ?f)"
    unfolding m py_round_lt_12 by auto
  also have "\<dots> = (0 < ADVANCE_AMOUNT r \<and> ADVANCE_AMOUNT r < 24 * \<bar>CHARGEBACK_AMOUNT r\<bar>)"
  proof (cases "ADVANCE_AMOUNT r \<le> 0")
    case True
    with classify_fields(1)[OF assms(1)] have "?f = 0"
      unfolding cb_fraction_value by simp
    with True show ?thesis by simp
  next
    case False
    then have pos: "0 < ADVANCE_AMOUNT r" by simp
    with classify_fields(1)[OF assms(1)]
    have f: "?f = min (\<bar>CHARGEBACK_AMOUNT r\<bar> / ADVANCE_AMOUNT r) 1"
      unfolding cb_fraction_value by simp
    have "(1 / 24 < ?f) = (1 / 24 < \<bar>CHARGEBACK_AMOUNT r\<bar> / ADVANCE_AMOUNT r)"
      unfolding f by simp
    also have "\<dots> = (ADVANCE_AMOUNT r < 24 * \<bar>CHARGEBACK_AMOUNT r\<bar>)"
      using pos by (simp add: field_simps)
    finally show ?thesis using pos by simp
  qed
  finally show ?thesis using le by simp
qed

theorem charged_back_months_paid_witness:
  "classify \<lparr>POLICY_ID = 7, POLICY_NUMBER = ''X'', FIRST_STATEMENT_DATE = (19783::int),
       ADVANCE_AMOUNT = 1200, CHARGEBACK_AMOUNT = - 600\<rparr> =
   Inr \<lparr>POLICY_ID = 7, POLICY_NUMBER = ''X'', FIRST_STATEMENT_DATE = 19783,
        ADVANCE_AMOUNT = 1200, CHARGEBACK_AMOUNT = - 600,
        CB_FRACTION = 1 / 2, MONTHS_PAID = 6, STATUS = ''Charged Back''\<rparr> \<and>
   (6::int) \<le> 12 \<and> ((6::int) < 12) = ((0::rat) < 1200 \<and> (1200::rat) < 24 * \<bar>- 600\<bar>)"
proof -
  let ?r = "\<lparr>POLICY_ID = 7, POLICY_NUMBER = ''X'', FIRST_STATEMENT_DATE = (19783::int),
       ADVANCE_AMOUNT = 1200, CHARGEBACK_AMOUNT = - 600\<rparr>"
  let ?c = "\<lparr>POLICY_ID = 7, POLICY_NUMBER = ''X'', FIRST_STATEMENT_DATE = (19783::int),
        ADVANCE_AMOUNT = 1200, CHARGEBACK_AMOUNT = - 600,
        CB_FRACTION = 1 / 2, MONTHS_PAID = 6, STATUS = ''Charged Back''\<rparr>"
  have c: "classify ?r = Inr ?c" by code_simp
  have s: "STATUS ?c = ''Charged Back''" by simp
  from charged_back_months_paid[OF c s] c show ?thesis by simp
qed

text \<open>
  C5, as the specification words it, fails for a small chargeback: 1 charged back on an
  advance of 1000 is a charged-back row with 12 months paid.
\<close>
theorem charged_back_months_paid_counterexample:
  "classify \<lparr>POLICY_ID = 2, POLICY_NUMBER = ''P2'', FIRST_STATEMENT_DATE = (19783::int),
       ADVANCE_AMOUNT = 1000, CHARGEBACK_AMOUNT = - 1\<rparr> =
   Inr \<lparr>POLICY_ID = 2, POLICY_NUMBER = ''P2'', FIRST_STATEMENT_DATE = 19783,
        ADVANCE_AMOUNT = 1000, CHARGEBACK_AMOUNT = - 1,
        CB_FRACTION = 1 / 1000, MONTHS_PAID = 12, STATUS = ''Charged Back''\<rparr>"
  by code_simp

text \<open>
  C10. An active row has no chargeback, a fraction of 0 and 12 months paid, and it is in
  neither the in-policy nor the non-in-policy segment of any frame.
\<close>
theorem active_policy_full_term:
  assumes "classify r = Inr c" and "STATUS c = ''Active''"
  shows "CHARGEBACK_AMOUNT c = 0 \<and> CB_FRACTION c = 0 \<and> MONTHS_PAID c = 12 \<and>
         c \<notin> set (df_ip df) \<and> c \<notin> set (df_nip df)"
proof -
  from classify_fields(3,5)[OF assms(1)] assms(2)
  have z: "CHARGEBACK_AMOUNT r = 0" "CHARGEBACK_AMOUNT c = 0"
    by (auto simp: status_def split: if_splits)
  with classify_fields(1)[OF assms(1)] have f: "CB_FRACTION c = 0"
    unfolding cb_fraction_value by (simp split: if_splits)
  have "MONTHS_PAID c = py_round (of_int 12)"
    using classify_fields(2)[OF assms(1)] f by (simp add: months_paid_def)
  then have m: "MONTHS_PAID c = 12" unfolding py_round_of_int .
  from assms(2) have "c \<notin> set (df_ip df)" "c \<notin> set (df_nip df)"
    by (auto simp: df_ip_def df_nip_def)
  with z f m show ?thesis by simp
qed

theorem active_policy_full_term_witness:
  "classify \<lparr>POLICY_ID = 3, POLICY_NUMBER = ''Y'', FIRST_STATEMENT_DATE = (19732::int),
       ADVANCE_AMOUNT = 1000, CHARGEBACK_AMOUNT = 0\<rparr> =
   Inr \<lparr>POLICY_ID = 3, POLICY_NUMBER = ''Y'', FIRST_STATEMENT_DATE = 19732,
        ADVANCE_AMOUNT = 1000, CHARGEBACK_AMOUNT = 0,
        CB_FRACTION = 0, MONTHS_PAID = 12, STATUS = ''Active''\<rparr> \<and>
   \<lparr>POLICY_ID = 3, POLICY_NUMBER = ''Y'', FIRST_STATEMENT_DATE = (19732::int),
        ADVANCE_AMOUNT = 1000, CHARGEBACK_AMOUNT = 0,
        CB_FRACTION = 0, MONTHS_PAID = 12, STATUS = ''Active''\<rparr>
     \<notin> set (df_ip [\<lparr>POLICY_ID = 3, POLICY_NUMBER = ''Y'', FIRST_STATEMENT_DATE = (19732::int),
        ADVANCE_AMOUNT = 1000, CHARGEBACK_AMOUNT = 0,
        CB_FRACTION = 0, MONTHS_PAID = 12, STATUS = ''Active''\<rparr>])"
proof -
  let ?r = "\<lparr>POLICY_ID = 3, POLICY_NUMBER = ''Y'', FIRST_STATEMENT_DATE = (19732::int),
       ADVANCE_AMOUNT = 1000, CHARGEBACK_AMOUNT = 0\<rparr>"
  let ?c = "\<lparr>POLICY_ID = 3, POLICY_NUMBER = ''Y'', FIRST_STATEMENT_DATE = (19732::int),
        ADVANCE_AMOUNT = 1000, CHARGEBACK_AMOUNT = 0,
        CB_FRACTION = 0, MONTHS_PAID = 12, STATUS = ''Active''\<rparr>"
  have c: "classify ?r = Inr ?c" by code_simp
  have s: "STATUS ?c = ''Active''" by simp
  from active_policy_full_term[OF c s, of "[?c]"] c show ?thesis by blast
qed

section \<open>Facts about resampling\<close>

lemma series_min_Min: "series_min ps = (if ps = [] then None else Some (Min (set ps)))"
proof (cases ps)
  case Nil
  then show ?thesis by simp
next
  case (Cons d ds)
  then show ?thesis using Min.set_eq_fold[of d ds] by simp
qed

lemma series_max_Max: "series_max ps = (if ps = [] then None else Some (Max (set ps)))"
proof (cases ps)
  case Nil
  then show ?thesis by simp
next
  case (Cons d ds)
  then show ?thesis using Max.set_eq_fold[of d ds] by simp
qed

lemma resample_Nil: "resample f [] = []"
  by (simp add: resample_def)

lemma resample_bins:
  "data \<noteq> [] \<Longrightarrow>
   resample f data =
     map (\<lambda>i. (i, filter (\<lambda>r. period f (FIRST_STATEMENT_DATE r) = i) data))
       [Min ((\<lambda>r. period f (FIRST_STATEMENT_DATE r)) ` set data) ..
        Max ((\<lambda>r. period f (FIRST_STATEMENT_DATE r)) ` set data)]"
  by (simp add: resample_def series_min_Min series_max_Max Let_def)

lemma map_fst_resample:
  "map fst (resample f data) =
     (if data = [] then []
      else [Min ((\<lambda>r. period f (FIRST_STATEMENT_DATE r)) ` set data) ..
            Max ((\<lambda>r. period f (FIRST_STATEMENT_DATE r)) ` set data)])"
  by (simp add: resample_Nil resample_bins comp_def)

lemma resample_group:
  "(i, g) \<in> set (resample f data) \<Longrightarrow>
   g = filter (\<lambda>r. period f (FIRST_STATEMENT_DATE r) = i) data"
  by (cases "data = []") (auto simp: resample_Nil resample_bins)

lemma period_in_bins:
  assumes "r \<in> set data"
  shows "period f (FIRST_STATEMENT_DATE r) \<in> set (map fst (resample f data))"
proof -
  let ?P = "(\<lambda>r. period f (FIRST_STATEMENT_DATE r)) ` set data"
  have fin: "finite ?P" by simp
  have mem: "period f (FIRST_STATEMENT_DATE r) \<in> ?P" using assms by blast
  have "Min ?P \<le> period f (FIRST_STATEMENT_DATE r)" using Min_le[OF fin mem] .
  moreover have "period f (FIRST_STATEMENT_DATE r) \<le> Max ?P" using Max_ge[OF fin mem] .
  moreover have "data \<noteq> []" using assms by auto
  ultimately show ?thesis unfolding map_fst_resample by simp
qed

lemma sum_list_indicator:
  fixes v :: "'a::comm_monoid_add"
  shows "distinct is \<Longrightarrow> sum_list (map (\<lambda>i. if a = i then v else 0) is) = (if a \<in> set is then v else 0)"
  by (induction "is") auto

lemma sum_list_by_bins:
  fixes g :: "'r \<Rightarrow> 'a::comm_monoid_add"
  assumes "distinct is" and "\<forall>r\<in>set xs. p r \<in> set is"
  shows "sum_list (map (\<lambda>i. sum_list (map g (filter (\<lambda>r. p r = i) xs))) is) = sum_list (map g xs)"
  using assms(2)
proof (induction xs)
  case Nil
  then show ?case by simp
next
  case (Cons x xs)
  have "sum_list (map (\<lambda>i. sum_list (map g (filter (\<lambda>r. p r = i) (x # xs)))) is)
      = sum_list (map (\<lambda>i. (if p x = i then g x else 0)
                             + sum_list (map g (filter (\<lambda>r. p r = i) xs))) is)"
    by (rule arg_cong[where f = sum_list], rule map_cong) auto
  also have "\<dots> = sum_list (map (\<lambda>i. if p x = i then g x else 0) is)
                 + sum_list (map (\<lambda>i. sum_list (map g (filter (\<lambda>r. p r = i) xs))) is)"
    by (simp add: sum_list_addf)
  also have "\<dots> = g x + sum_list (map g xs)"
    using Cons assms(1) by (simp add: sum_list_indicator)
  finally show ?case by simp
qed

lemma abs_sum_nonpos:
  fixes h :: "'r \<Rightarrow> rat"
  assumes "\<forall>r\<in>set xs. h r \<le> 0"
  shows "\<bar>sum_list (map h xs)\<bar> = sum_list (map (\<lambda>r. \<bar>h r\<bar>) xs)"
proof -
  have "sum_list (map h xs) \<le> 0 \<and> - sum_list (map h xs) = sum_list (map (\<lambda>r. \<bar>h r\<bar>) xs)"
    using assms by (induction xs) auto
  then show ?thesis by simp
qed

lemma resample_as_bins:
  "resample f data =
     map (\<lambda>i. (i, filter (\<lambda>r. period f (FIRST_STATEMENT_DATE r) = i) data))
       (map fst (resample f data))"
  by (cases "data = []") (simp_all add: resample_Nil resample_bins comp_def)

lemma bins_sorted_distinct:
  "sorted (map fst (resample f data)) \<and> distinct (map fst (resample f data))"
  unfolding map_fst_resample by simp

lemma ts_all_as_bins:
  "ts_all f data =
     map (\<lambda>i. \<lparr>Date = i,
               Advanced = sum_list (map ADVANCE_AMOUNT
                 (filter (\<lambda>r. period f (FIRST_STATEMENT_DATE r) = i) data)),
               Chargeback = \<bar>sum_list (map CHARGEBACK_AMOUNT
                 (filter (\<lambda>r. period f (FIRST_STATEMENT_DATE r) = i) data))\<bar>\<rparr>)
       (map fst (resample f data))"
  unfolding ts_all_def by (subst resample_as_bins) (simp add: comp_def)

lemma ts_segment_as_bins:
  "ts_segment f data =
     map (\<lambda>i. \<lparr>Bin = i,
               Count = length (filter (\<lambda>r. period f (FIRST_STATEMENT_DATE r) = i) data),
               Chargeback_abs = \<bar>sum_list (map CHARGEBACK_AMOUNT
                 (filter (\<lambda>r. period f (FIRST_STATEMENT_DATE r) = i) data))\<bar>,
               Avg_Months = series_mean (map MONTHS_PAID
                 (filter (\<lambda>r. period f (FIRST_STATEMENT_DATE r) = i) data))\<rparr>)
       (map fst (resample f data))"
  unfolding ts_segment_def by (subst resample_as_bins) (simp add: comp_def)

lemma map_Date_ts_all: "map Date (ts_all f data) = map fst (resample f data)"
  unfolding ts_all_as_bins by (simp add: comp_def)

lemma map_Bin_ts_segment: "map Bin (ts_segment f data) = map fst (resample f data)"
  unfolding ts_segment_as_bins by (simp add: comp_def)

lemma unique_by_key:
  assumes "distinct (map k xs)" and "a \<in> set (map k xs)"
  shows "\<exists>!b. b \<in> set xs \<and> k b = a"
proof -
  from assms(1) have inj: "inj_on k (set xs)" by (simp add: distinct_map)
  from assms(2) obtain b where b: "b \<in> set xs" "k b = a" by auto
  show ?thesis
  proof (rule ex1I[of _ b])
    show "b \<in> set xs \<and> k b = a" using b by simp
  next
    fix c assume "c \<in> set xs \<and> k c = a"
    with b inj show "c = b" by (auto dest: inj_onD)
  qed
qed

section \<open>Claims about the time series\<close>

text \<open>
  C7. For every frame handed to \<^verbatim>\<open>render_all\<close> and every aggregation choice, the advances of
  the buckets add up to the sum of the advances of the rows, which is also the figure the
  tab shows as total advanced: bucketing neither loses nor repeats a row.
\<close>

theorem bucket_advances_sum_to_total:
  "sum_list (map Advanced (ts_all (freq_map agg) data)) = sum_list (map ADVANCE_AMOUNT data) \<and>
   sum_list (map Advanced (ts_all (freq_map agg) data)) = total_advanced (render_all agg data)"
proof -
  let ?f = "freq_map agg"
  let ?bins = "map fst (resample ?f data)"
  have d: "distinct ?bins" using bins_sorted_distinct by blast
  have cover: "\<forall>r\<in>set data. period ?f (FIRST_STATEMENT_DATE r) \<in> set ?bins"
    using period_in_bins by blast
  have "map Advanced (ts_all ?f data) =
          map (\<lambda>i. sum_list (map ADVANCE_AMOUNT
                 (filter (\<lambda>r. period ?f (FIRST_STATEMENT_DATE r) = i) data))) ?bins"
    by (subst ts_all_as_bins) (simp add: comp_def)
  then have "sum_list (map Advanced (ts_all ?f data)) = sum_list (map ADVANCE_AMOUNT data)"
    using sum_list_by_bins[OF d cover, of ADVANCE_AMOUNT] by simp
  moreover have "total_advanced (render_all agg data) = sum_list (map ADVANCE_AMOUNT data)"
    by (simp add: render_all_def Let_def)
  ultimately show ?thesis by simp
qed

text \<open>
  C6. Chargeback amounts come out of the query as sums of negative amounts, or 0. On such
  rows every bucket of the two time series reports the figures of exactly the rows whose
  first statement date falls in its period: \<^verbatim>\<open>render_all\<close> the sum of the advances and the
  sum of the absolute chargebacks, \<^verbatim>\<open>render_segment\<close> the number of rows, the sum of the
  absolute chargebacks and the mean of the months paid (undefined for a bucket without rows).
  Every row falls in exactly one bucket of each series.
\<close>

theorem bucket_metrics:
  assumes "\<forall>r\<in>set data. CHARGEBACK_AMOUNT r \<le> 0"
  shows "(\<forall>b\<in>set (ts_all f data).
            Advanced b = sum_list (map ADVANCE_AMOUNT
              (filter (\<lambda>r. period f (FIRST_STATEMENT_DATE r) = Date b) data)) \<and>
            Chargeback b = sum_list (map (\<lambda>r. \<bar>CHARGEBACK_AMOUNT r\<bar>)
              (filter (\<lambda>r. period f (FIRST_STATEMENT_DATE r) = Date b) data))) \<and>
         (\<forall>b\<in>set (ts_segment f data).
            Count b = length (filter (\<lambda>r. period f (FIRST_STATEMENT_DATE r) = Bin b) data) \<and>
            Chargeback_abs b = sum_list (map (\<lambda>r. \<bar>CHARGEBACK_AMOUNT r\<bar>)
              (filter (\<lambda>r. period f (FIRST_STATEMENT_DATE r) = Bin b) data)) \<and>
            Avg_Months b = series_mean (map MONTHS_PAID
              (filter (\<lambda>r. period f (FIRST_STATEMENT_DATE r) = Bin b) data))) \<and>
         (\<forall>r\<in>set data.
            (\<exists>!b. b \<in> set (ts_all f data) \<and> Date b = period f (FIRST_STATEMENT_DATE r)) \<and>
            (\<exists>!b. b \<in> set (ts_segment f data) \<and> Bin b = period f (FIRST_STATEMENT_DATE r)))"
proof -
  have ab: "\<bar>sum_list (map CHARGEBACK_AMOUNT (filter P data))\<bar> =
            sum_list (map (\<lambda>r. \<bar>CHARGEBACK_AMOUNT r\<bar>) (filter P data))" for P
    using assms by (intro abs_sum_nonpos) simp
  have p1: "\<forall>b\<in>set (ts_all f data).
            Advanced b = sum_list (map ADVANCE_AMOUNT
              (filter (\<lambda>r. period f (FIRST_STATEMENT_DATE r) = Date b) data)) \<and>
            Chargeback b = sum_list (map (\<lambda>r. \<bar>CHARGEBACK_AMOUNT r\<bar>)
              (filter (\<lambda>r. period f (FIRST_STATEMENT_DATE r) = Date b) data))"
    by (subst ts_all_as_bins) (auto simp: ab)
  have p2: "\<forall>b\<in>set (ts_segment f data).
            Count b = length (filter (\<lambda>r. period f (FIRST_STATEMENT_DATE r) = Bin b) data) \<and>
            Chargeback_abs b = sum_list (map (\<lambda>r. \<bar>CHARGEBACK_AMOUNT r\<bar>)
              (filter (\<lambda>r. period f (FIRST_STATEMENT_DATE r) = Bin b) data)) \<and>
            Avg_Months b = series_mean (map MONTHS_PAID
              (filter (\<lambda>r. period f (FIRST_STATEMENT_DATE r) = Bin b) data))"
    by (subst ts_segment_as_bins) (auto simp: ab)
  have p3: "\<forall>r\<in>set data.
            (\<exists>!b. b \<in> set (ts_all f data) \<and> Date b = period f (FIRST_STATEMENT_DATE r)) \<and>
            (\<exists>!b. b \<in> set (ts_segment f data) \<and> Bin b = period f (FIRST_STATEMENT_DATE r))"
  proof
    fix r assume r: "r \<in> set data"
    have d1: "distinct (map Date (ts_all f data))"
      unfolding map_Date_ts_all using bins_sorted_distinct by blast
    have d2: "distinct (map Bin (ts_segment f data))"
      unfolding map_Bin_ts_segment using bins_sorted_distinct by blast
    have m1: "period f (FIRST_STATEMENT_DATE r) \<in> set (map Date (ts_all f data))"
      unfolding map_Date_ts_all using period_in_bins[OF r] .
    have m2: "period f (FIRST_STATEMENT_DATE r) \<in> set (map Bin (ts_segment f data))"
      unfolding map_Bin_ts_segment using period_in_bins[OF r] .
    from unique_by_key[OF d1 m1] unique_by_key[OF d2 m2]
    show "(\<exists>!b. b \<in> set (ts_all f data) \<and> Date b = period f (FIRST_STATEMENT_DATE r)) \<and>
          (\<exists>!b. b \<in> set (ts_segment f data) \<and> Bin b = period f (FIRST_STATEMENT_DATE r))"
      by blast
  qed
  from p1 p2 p3 show ?thesis by blast
qed

text \<open>
  C2, as the code has it. Both time series are sorted by period without repetition and hold
  one bucket for every period from that of the earliest row to that of the latest row (none
  for an empty frame). A bucket whose period holds no row is present all the same, with sums
  and count 0 and no mean.
\<close>

theorem buckets_cover_every_period:
  "sorted (map Date (ts_all f data)) \<and> distinct (map Date (ts_all f data)) \<and>
   map Bin (ts_segment f data) = map Date (ts_all f data) \<and>
   map Date (ts_all f data) =
     (if data = [] then []
      else [Min ((\<lambda>r. period f (FIRST_STATEMENT_DATE r)) ` set data) ..
            Max ((\<lambda>r. period f (FIRST_STATEMENT_DATE r)) ` set data)]) \<and>
   (\<forall>b\<in>set (ts_all f data).
      filter (\<lambda>r. period f (FIRST_STATEMENT_DATE r) = Date b) data = [] \<longrightarrow>
      Advanced b = 0 \<and> Chargeback b = 0) \<and>
   (\<forall>b\<in>set (ts_segment f data).
      filter (\<lambda>r. period f (FIRST_STATEMENT_DATE r) = Bin b) data = [] \<longrightarrow>
      Count b = 0 \<and> Chargeback_abs b = 0 \<and> Avg_Months b = None)"
proof -
  have a: "sorted (map Date (ts_all f data)) \<and> distinct (map Date (ts_all f data))"
    unfolding map_Date_ts_all using bins_sorted_distinct .
  have b: "map Bin (ts_segment f data) = map Date (ts_all f data)"
    by (simp add: map_Date_ts_all map_Bin_ts_segment)
  have c: "map Date (ts_all f data) =
     (if data = [] then []
      else [Min ((\<lambda>r. period f (FIRST_STATEMENT_DATE r)) ` set data) ..
            Max ((\<lambda>r. period f (FIRST_STATEMENT_DATE r)) ` set data)])"
    unfolding map_Date_ts_all map_fst_resample ..
  have d: "\<forall>b\<in>set (ts_all f data).
      filter (\<lambda>r. period f (FIRST_STATEMENT_DATE r) = Date b) data = [] \<longrightarrow>
      Advanced b = 0 \<and> Chargeback b = 0"
    by (subst ts_all_as_bins) auto
  have e: "\<forall>b\<in>set (ts_segment f data).
      filter (\<lambda>r. period f (FIRST_STATEMENT_DATE r) = Bin b) data = [] \<longrightarrow>
      Count b = 0 \<and> Chargeback_abs b = 0 \<and> Avg_Months b = None"
    by (subst ts_segment_as_bins) (auto simp: series_mean_def)
  from a b c d e show ?thesis by blast
qed

section \<open>Facts about the script\<close>

lemma to_datetime_isna:
  "isna_sum (to_datetime parse rows) =
     length (filter (\<lambda>r. parse (FIRST_STATEMENT_DATE r) = None) rows)"
  by (induction rows) (simp_all add: to_datetime_def isna_sum_def)

lemma dropna_to_datetime_columns:
  "map (\<lambda>r. (POLICY_ID r, POLICY_NUMBER r, Some (FIRST_STATEMENT_DATE r),
             ADVANCE_AMOUNT r, CHARGEBACK_AMOUNT r)) (dropna (to_datetime parse rows)) =
   map (\<lambda>r. (POLICY_ID r, POLICY_NUMBER r, parse (FIRST_STATEMENT_DATE r),
             ADVANCE_AMOUNT r, CHARGEBACK_AMOUNT r))
     (filter (\<lambda>r. parse (FIRST_STATEMENT_DATE r) \<noteq> None) rows)"
proof (induction rows)
  case Nil
  then show ?case by (simp add: to_datetime_def)
next
  case (Cons r rows)
  then show ?case
    by (cases "parse (FIRST_STATEMENT_DATE r)") (simp_all add: to_datetime_def)
qed

lemma dropna_length:
  "length (dropna (to_datetime parse rows)) +
     length (filter (\<lambda>r. parse (FIRST_STATEMENT_DATE r) = None) rows) = length rows"
proof (induction rows)
  case Nil
  then show ?case by (simp add: to_datetime_def)
next
  case (Cons r rows)
  then show ?case
    by (cases "parse (FIRST_STATEMENT_DATE r)") (simp_all add: to_datetime_def)
qed

lemma apply_rows_total:
  assumes "\<And>r. \<exists>c. f r = Inr c"
  shows "\<exists>cs. apply_rows f df = Inr cs \<and> length cs = length df"
proof (induction df)
  case Nil
  then show ?case by simp
next
  case (Cons r df)
  then obtain cs where cs: "apply_rows f df = Inr cs" "length cs = length df" by blast
  obtain c where c: "f r = Inr c" using assms by blast
  show ?case by (simp add: c cs)
qed

lemma apply_rows_classify:
  "\<exists>cs. apply_rows classify df = Inr cs \<and> length cs = length df"
proof (rule apply_rows_total)
  fix r :: "'a row"
  show "\<exists>c. classify r = Inr c" using classify_value[of r] by blast
qed

lemma default_range_nonempty:
  "ds \<noteq> [] \<Longrightarrow> \<exists>lo hi start. default_range ds = Inr (lo, hi, start)"
  by (cases ds) (simp_all add: default_range_def)

lemma default_range_empty: "default_range [] = Inl TypeError"
  by (simp add: default_range_def)

lemma render_segment_total: "\<exists>v. render_segment data agg s = Inr v"
  by (simp add: render_segment_def py_truediv_def Let_def)

lemma render_segment_empty:
  "render_segment [] agg s =
     Inr \<lparr>seg_total = 0, seg_total_cb = 0, avg_cb = 0, avg_months = Some 0,
          k4_avg_months_paid = Some 0,
          seg_ts_panel = Info ''No data to display.'', avg_months_chart = False,
          seg_months_panel = Info ''No data to display.''\<rparr>"
  by (simp add: render_segment_def Let_def)

lemma render_all_empty:
  "render_all agg [] =
     \<lparr>total_n = 0, active_n = 0, cb_n = 0, total_advanced = 0, total_cb = 0,
      months_panel = Info ''No charged-back policies in this segment.'',
      ts_panel = Info ''No data to display.''\<rparr>"
  by (simp add: render_all_def)

lemma streamlit_app_runs:
  assumes "snd (load_and_clean parse rows) \<noteq> []"
  shows "\<exists>v. streamlit_app parse date_input agg_all agg_ip agg_nip rows = Inr v \<and>
             warning_shown v = fst (load_and_clean parse rows)"
proof -
  obtain w df0 where lc: "load_and_clean parse rows = (w, df0)" by (cases "load_and_clean parse rows")
  with assms have ne: "df0 \<noteq> []" by simp
  obtain df1 where ap: "apply_rows classify df0 = Inr df1" and len: "length df1 = length df0"
    using apply_rows_classify[of df0] by blast
  from ne len have "map FIRST_STATEMENT_DATE df1 \<noteq> []" by auto
  from default_range_nonempty[OF this]
  obtain lo hi start where dr: "default_range (map FIRST_STATEMENT_DATE df1) = Inr (lo, hi, start)"
    by blast
  obtain ds de where di: "date_input (start, hi) lo hi = (ds, de)"
    by (cases "date_input (start, hi) lo hi")
  obtain ip where ip: "render_segment (df_ip (date_filter ds de df1)) agg_ip False = Inr ip"
    using render_segment_total by blast
  obtain nip where nip: "render_segment (df_nip (date_filter ds de df1)) agg_nip True = Inr nip"
    using render_segment_total by blast
  show ?thesis
    by (simp add: streamlit_app_def lc ap dr di ip nip Let_def)
qed

section \<open>Claims about the script\<close>

text \<open>
  What cleaning does. It raises nothing. The warning carries the number of rows whose date
  did not parse, and is absent when there are none; the rows that go on to classification
  are the rows whose date parsed, in their order, with the parsed date and the other columns
  unchanged; dropped and surviving rows together are all the rows. Whenever a row survives,
  the script runs to the end and shows that warning. (The model is a function of its input,
  so a second run on the same rows gives the same count and the same survivors.)
\<close>

lemma cleaning_drops_and_counts:
  "fst (load_and_clean parse rows) =
     (if length (filter (\<lambda>r. parse (FIRST_STATEMENT_DATE r) = None) rows) = 0 then None
      else Some (length (filter (\<lambda>r. parse (FIRST_STATEMENT_DATE r) = None) rows))) \<and>
   map (\<lambda>r. (POLICY_ID r, POLICY_NUMBER r, Some (FIRST_STATEMENT_DATE r),
             ADVANCE_AMOUNT r, CHARGEBACK_AMOUNT r)) (snd (load_and_clean parse rows)) =
   map (\<lambda>r. (POLICY_ID r, POLICY_NUMBER r, parse (FIRST_STATEMENT_DATE r),
             ADVANCE_AMOUNT r, CHARGEBACK_AMOUNT r))
     (filter (\<lambda>r. parse (FIRST_STATEMENT_DATE r) \<noteq> None) rows) \<and>
   length (snd (load_and_clean parse rows)) +
     length (filter (\<lambda>r. parse (FIRST_STATEMENT_DATE r) = None) rows) = length rows \<and>
   (snd (load_and_clean parse rows) \<noteq> [] \<longrightarrow>
      (\<exists>v. streamlit_app parse date_input agg_all agg_ip agg_nip rows = Inr v \<and>
           warning_shown v = fst (load_and_clean parse rows)))"
proof -
  have a: "fst (load_and_clean parse rows) =
     (if length (filter (\<lambda>r. parse (FIRST_STATEMENT_DATE r) = None) rows) = 0 then None
      else Some (length (filter (\<lambda>r. parse (FIRST_STATEMENT_DATE r) = None) rows)))"
    by (simp add: load_and_clean_def Let_def warning_def to_datetime_isna)
  have s: "snd (load_and_clean parse rows) = dropna (to_datetime parse rows)"
    by (simp add: load_and_clean_def Let_def)
  show ?thesis
    unfolding s using a dropna_to_datetime_columns[of parse rows] dropna_length[of parse rows]
      streamlit_app_runs[of parse rows date_input agg_all agg_ip agg_nip]
    unfolding s by blast
qed

text \<open>
  C9 says that on empty input every step gives an empty or zero-valued result instead of an
  error. The two render functions do (\<open>render_all_empty\<close>, \<open>render_segment_empty\<close>); the
  script does not: with no row at all it never reaches the tabs, it stops with an error at
  the computation of the default date range, which takes the earliest date of an empty frame.
\<close>

theorem empty_frame_raises:
  "streamlit_app parse date_input agg_all agg_ip agg_nip [] = Inl TypeError"
  by (simp add: streamlit_app_def load_and_clean_def to_datetime_def isna_sum_def
      warning_def default_range_def Let_def)

text \<open>The same happens when every row is dropped for its date.\<close>

lemma all_rows_invalid_raises:
  assumes "\<forall>r\<in>set rows. parse (FIRST_STATEMENT_DATE r) = None"
  shows "streamlit_app parse date_input agg_all agg_ip agg_nip rows = Inl TypeError"
proof -
  have "dropna (to_datetime parse rows) = []"
    using assms by (induction rows) (simp_all add: to_datetime_def)
  then show ?thesis
    by (simp add: streamlit_app_def load_and_clean_def Let_def default_range_def)
qed

section \<open>The claims at concrete inputs\<close>

text \<open>
  C2, as the specification words it, fails: with rows on 2024-01-01 and 2024-01-03 the daily
  series has a bucket for 2024-01-02 holding no row; with rows in January and March the
  monthly series has a February bucket of zeros; the weekly series of the same two rows has
  twelve buckets, ten of them empty.
\<close>

theorem buckets_omit_empty_periods_counterexample:
  "ts_segment (freq_map Day) [row_jan01, row_jan03] =
     [\<lparr>Bin = 19723, Count = 1, Chargeback_abs = 50, Avg_Months = Some 6\<rparr>,
      \<lparr>Bin = 19724, Count = 0, Chargeback_abs = 0, Avg_Months = None\<rparr>,
      \<lparr>Bin = 19725, Count = 1, Chargeback_abs = 200, Avg_Months = Some 0\<rparr>] \<and>
   ts_all (freq_map Month) [row_jan01, row_mar18] =
     [\<lparr>Date = 24288, Advanced = 100, Chargeback = 50\<rparr>,
      \<lparr>Date = 24289, Advanced = 0, Chargeback = 0\<rparr>,
      \<lparr>Date = 24290, Advanced = 300, Chargeback = 0\<rparr>] \<and>
   length (ts_all (freq_map Week) [row_jan01, row_mar18]) = 12 \<and>
   length (filter (\<lambda>b. Advanced b = 0) (ts_all (freq_map Week) [row_jan01, row_mar18])) = 10"
  by code_simp

theorem buckets_cover_every_period_witness:
  "\<lparr>Bin = 19724, Count = 0, Chargeback_abs = 0, Avg_Months = None\<rparr>
     \<in> set (ts_segment Freq_D [row_jan01, row_jan03]) \<and>
   filter (\<lambda>r. period Freq_D (FIRST_STATEMENT_DATE r) = 19724) [row_jan01, row_jan03] = [] \<and>
   Count \<lparr>Bin = 19724, Count = 0, Chargeback_abs = 0, Avg_Months = None\<rparr> = 0 \<and>
   map Bin (ts_segment Freq_D [row_jan01, row_jan03]) = [19723, 19724, 19725] \<and>
   sorted (map Date (ts_all Freq_D [row_jan01, row_jan03]))"
proof -
  let ?data = "[row_jan01, row_jan03]"
  let ?b = "\<lparr>Bin = 19724, Count = 0, Chargeback_abs = 0, Avg_Months = None\<rparr>"
  have mem: "?b \<in> set (ts_segment Freq_D ?data)" by code_simp
  have emp: "filter (\<lambda>r. period Freq_D (FIRST_STATEMENT_DATE r) = Bin ?b) ?data = []"
    by (simp add: row_jan01_def row_jan03_def)
  have bins: "map Bin (ts_segment Freq_D ?data) = [19723, 19724, 19725]" by code_simp
  note t = buckets_cover_every_period[of Freq_D ?data]
  from t have srt: "sorted (map Date (ts_all Freq_D ?data))" by blast
  from t have "\<forall>b\<in>set (ts_segment Freq_D ?data).
      filter (\<lambda>r. period Freq_D (FIRST_STATEMENT_DATE r) = Bin b) ?data = [] \<longrightarrow>
      Count b = 0 \<and> Chargeback_abs b = 0 \<and> Avg_Months b = None" by blast
  from bspec[OF this mem] emp have "Count ?b = 0" by blast
  with mem emp bins srt show ?thesis by simp
qed

theorem bucket_metrics_witness:
  "\<lparr>Bin = 19723, Count = 1, Chargeback_abs = 50, Avg_Months = Some 6\<rparr>
     \<in> set (ts_segment Freq_D [row_jan01, row_jan03]) \<and>
   CHARGEBACK_AMOUNT row_jan01 \<le> 0 \<and> CHARGEBACK_AMOUNT row_jan03 \<le> 0 \<and>
   filter (\<lambda>r. period Freq_D (FIRST_STATEMENT_DATE r) = 19723) [row_jan01, row_jan03] = [row_jan01] \<and>
   (1::nat) = length (filter (\<lambda>r. period Freq_D (FIRST_STATEMENT_DATE r) = 19723) [row_jan01, row_jan03]) \<and>
   (50::rat) = sum_list (map (\<lambda>r. \<bar>CHARGEBACK_AMOUNT r\<bar>)
       (filter (\<lambda>r. period Freq_D (FIRST_STATEMENT_DATE r) = 19723) [row_jan01, row_jan03])) \<and>
   Some 6 = series_mean (map MONTHS_PAID
       (filter (\<lambda>r. period Freq_D (FIRST_STATEMENT_DATE r) = 19723) [row_jan01, row_jan03]))"
proof -
  let ?data = "[row_jan01, row_jan03]"
  let ?b = "\<lparr>Bin = 19723, Count = 1, Chargeback_abs = 50, Avg_Months = Some 6\<rparr>"
  have h: "\<forall>r\<in>set ?data. CHARGEBACK_AMOUNT r \<le> 0"
    by (simp add: row_jan01_def row_jan03_def)
  have mem: "?b \<in> set (ts_segment Freq_D ?data)" by code_simp
  have flt: "filter (\<lambda>r. period Freq_D (FIRST_STATEMENT_DATE r) = 19723) ?data = [row_jan01]"
    by (simp add: row_jan01_def row_jan03_def)
  from bucket_metrics[OF h, of Freq_D]
  have "\<forall>b\<in>set (ts_segment Freq_D ?data).
          Count b = length (filter (\<lambda>r. period Freq_D (FIRST_STATEMENT_DATE r) = Bin b) ?data) \<and>
          Chargeback_abs b = sum_list (map (\<lambda>r. \<bar>CHARGEBACK_AMOUNT r\<bar>)
            (filter (\<lambda>r. period Freq_D (FIRST_STATEMENT_DATE r) = Bin b) ?data)) \<and>
          Avg_Months b = series_mean (map MONTHS_PAID
            (filter (\<lambda>r. period Freq_D (FIRST_STATEMENT_DATE r) = Bin b) ?data))"
    by blast
  from bspec[OF this mem]
  have "(1::nat) = length (filter (\<lambda>r. period Freq_D (FIRST_STATEMENT_DATE r) = 19723) ?data) \<and>
        (50::rat) = sum_list (map (\<lambda>r. \<bar>CHARGEBACK_AMOUNT r\<bar>)
          (filter (\<lambda>r. period Freq_D (FIRST_STATEMENT_DATE r) = 19723) ?data)) \<and>
        Some 6 = series_mean (map MONTHS_PAID
          (filter (\<lambda>r. period Freq_D (FIRST_STATEMENT_DATE r) = 19723) ?data))"
    by simp
  with mem h flt show ?thesis by simp
qed

theorem bucket_advances_sum_to_total_witness:
  "sum_list (map Advanced (ts_all (freq_map Week) [row_jan01, row_jan03, row_mar18])) = 600 \<and>
   total_advanced (render_all Week [row_jan01, row_jan03, row_mar18]) = 600"
proof -
  have "sum_list (map ADVANCE_AMOUNT [row_jan01, row_jan03, row_mar18]) = 600"
    by (simp add: row_jan01_def row_jan03_def row_mar18_def)
  with bucket_advances_sum_to_total[of Week "[row_jan01, row_jan03, row_mar18]"]
  show ?thesis by simp
qed

text \<open>One valid and one invalid row: the invalid one is dropped and counted, the script goes on.\<close>

lemma cleaning_drops_and_counts_example:
  "snd (load_and_clean parse_iso_2024_01_01 raw_rows) \<noteq> [] \<and>
   fst (load_and_clean parse_iso_2024_01_01 raw_rows) = Some 1 \<and>
   map POLICY_ID (snd (load_and_clean parse_iso_2024_01_01 raw_rows)) = [1] \<and>
   (\<exists>v. streamlit_app parse_iso_2024_01_01 (\<lambda>v lo hi. v) Day Week Month raw_rows = Inr v \<and>
        warning_shown v = Some 1)"
proof -
  have ne: "snd (load_and_clean parse_iso_2024_01_01 raw_rows) \<noteq> []" by code_simp
  have w: "fst (load_and_clean parse_iso_2024_01_01 raw_rows) = Some 1" by code_simp
  have ids: "map POLICY_ID (snd (load_and_clean parse_iso_2024_01_01 raw_rows)) = [1]" by code_simp
  from cleaning_drops_and_counts[of parse_iso_2024_01_01 raw_rows "\<lambda>v lo hi. v" Day Week Month] ne
  have "\<exists>v. streamlit_app parse_iso_2024_01_01 (\<lambda>v lo hi. v) Day Week Month raw_rows = Inr v \<and>
        warning_shown v = fst (load_and_clean parse_iso_2024_01_01 raw_rows)" by blast
  with ne w ids show ?thesis by simp
qed

text \<open>
  C8 says that rows with an invalid date are dropped and counted and that processing goes on.
  Dropping and counting hold (\<open>cleaning_drops_and_counts\<close>); going on fails when no row
  survives: a single row whose date is out of bounds is dropped and counted (the warning
  says 1), and then the script stops with the error of the empty frame.
\<close>

theorem all_dates_invalid_halts:
  "load_and_clean parse_iso_2024_01_01 raw_rows_out_of_bounds = (Some 1, []) \<and>
   streamlit_app parse_iso_2024_01_01 (\<lambda>v lo hi. v) Day Day Day raw_rows_out_of_bounds =
     Inl TypeError"
  by code_simp

end
